theory Spec2Isabelle
  imports Main
begin

section \<open>Data model\<close>

text \<open>
  The helper \<^verbatim>\<open>SummingConstraintSet\<close> of \<^verbatim>\<open>gas_male/helpers.py\<close> works on objects of
  the modelling library: variables with a key, models that are looked up by variable
  name and flattened, and algebraic expressions built with overloaded operators. The
  library is not part of the repository, so its objects are kept as plain data holding
  what the helper reads from them.
\<close>

text \<open>
  The descriptor of a variable key (\<^verbatim>\<open>vk.descr\<close>): its name, the provenance chain
  \<^verbatim>\<open>models\<close> (the names of the models that declared it), a unit and a description.
\<close>

record descr =
  vname :: string
  models :: "string list"
  units :: string
  label :: string

datatype varkey = VarKey (descr: descr)

datatype variable = Var (key: varkey)

text \<open>
  Modelled from the spec: \<^verbatim>\<open>Variable(**descr)\<close> is the library's constructor; it builds a
  new variable "carrying the original descriptor", so its key is the key of that
  descriptor.
\<close>

definition Variable :: "descr \<Rightarrow> variable" where
  "Variable d = Var (VarKey d)"

text \<open>
  Modelled from the spec: the library's algebra is kept symbolic. \<^verbatim>\<open>a + b\<close> is \<open>Add a b\<close>,
  a Python number is \<open>Num\<close>, and a constraint \<^verbatim>\<open>lhs >= rhs\<close> that the library has built is
  \<open>Geq lhs rhs\<close>, whose \<^verbatim>\<open>p_lt\<close> (the smaller side) is \<open>rhs\<close>. \<^verbatim>\<open>varkeys\<close> collects the keys
  of the variables of an expression.
\<close>

datatype expr = Num int | V variable | Add expr expr

datatype ineq = Geq (m_gt: expr) (p_lt: expr)

fun varkeys :: "expr \<Rightarrow> varkey set" where
  "varkeys (Num n) = {}"
| "varkeys (V v) = {key v}"
| "varkeys (Add a b) = varkeys a \<union> varkeys b"

text \<open>
  Python's \<^verbatim>\<open>sum(xs)\<close>: starts from the integer 0 and adds the items from left to right.
\<close>

definition py_sum :: "variable list \<Rightarrow> expr" where
  "py_sum vs = foldl (\<lambda>acc v. Add acc (V v)) (Num 0) vs"

text \<open>
  A SummingConstraintSet object. Its constructor hands the one-element list
  \<^verbatim>\<open>[lhs >= sum(...)]\<close> to \<^verbatim>\<open>ConstraintSet.__init__\<close>, which stores it as the contents of
  the set; no other list is ever stored, so the object is given by that one constraint
  and \<open>items\<close> is the list it holds.
\<close>

datatype scs = SCS ineq

fun items :: "scs \<Rightarrow> ineq list" where
  "items (SCS c) = [c]"

text \<open>The property \<^verbatim>\<open>summedvars\<close>: \<^verbatim>\<open>set(self[0].p_lt.varkeys)\<close>.\<close>

definition summedvars :: "scs \<Rightarrow> varkey set" where
  "summedvars s = varkeys (p_lt (items s ! 0))"

text \<open>
  A constraint tree: single constraints, nested constraint sets, and nested
  SummingConstraintSets (the only objects with an attribute \<^verbatim>\<open>summedvars\<close>).
\<close>

datatype constraint = Ineq ineq | CSet "constraint list" | Summing scs

text \<open>
  What \<^verbatim>\<open>model[varname]\<close> returns: one variable (an object without \<^verbatim>\<open>__len__\<close>) or a
  collection of variables.
\<close>

datatype lookup = Single variable | Many "variable list"

record model =
  name :: string
  getitem :: "string \<Rightarrow> lookup"
  constraints :: "constraint list"

text \<open>
  Modelled from the spec: \<^verbatim>\<open>flat()\<close> is the library's; it yields "every constraint
  reachable within" the set, "flattened, arbitrary depth": each member, and for a
  nested set the set itself followed by what it holds.
\<close>

fun flat_c :: "constraint \<Rightarrow> constraint list" where
  "flat_c (Ineq c) = [Ineq c]"
| "flat_c (CSet cs) = CSet cs # concat (map flat_c cs)"
| "flat_c (Summing s) = Summing s # map Ineq (items s)"

definition flat :: "model \<Rightarrow> constraint list" where
  "flat m = concat (map flat_c (constraints m))"

section \<open>The constructor\<close>

text \<open>
  The errors of a construction: the two the constructor's own lines raise, and the
  library's (whatever the library raises when it refuses to build the constraint).
\<close>

datatype error = IndexError | AssertionError | LibraryError

text \<open>
  \<^verbatim>\<open>if not hasattr(mvars, "__len__"): mvars = [mvars]\<close>
\<close>

fun as_list :: "lookup \<Rightarrow> variable list" where
  "as_list (Single v) = [v]"
| "as_list (Many vs) = vs"

text \<open>
  \<^verbatim>\<open>[v for v in mvars if v.key.models[0] == model.name]\<close>: the test indexes the chain of
  every candidate in turn, and indexing an empty list raises.
\<close>

fun depth_one :: "string \<Rightarrow> variable list \<Rightarrow> error + variable list" where
  "depth_one n [] = Inr []"
| "depth_one n (v # vs) =
     (case models (descr (key v)) of
        [] \<Rightarrow> Inl IndexError
      | m0 # _ \<Rightarrow>
          (case depth_one n vs of
             Inl e \<Rightarrow> Inl e
           | Inr r \<Rightarrow> Inr (if m0 = n then v # r else r)))"

text \<open>
  The inner loop over \<^verbatim>\<open>model.flat()\<close>: every constraint with the attribute
  \<^verbatim>\<open>summedvars\<close> adds it to \<^verbatim>\<open>alreadysummed\<close>.
\<close>

fun scan :: "constraint list \<Rightarrow> varkey set \<Rightarrow> varkey set" where
  "scan [] already = already"
| "scan (Summing s # cs) already = scan cs (already \<union> summedvars s)"
| "scan (c # cs) already = scan cs already"

text \<open>
  The loop over \<^verbatim>\<open>models\<close>, on the pair (\<^verbatim>\<open>summedvars\<close>, \<^verbatim>\<open>alreadysummed\<close>). The first
  model whose filter or assertion fails ends the construction (\<^verbatim>\<open>assert\<close> is taken as
  enabled).
\<close>

fun models_loop ::
  "string \<Rightarrow> model list \<Rightarrow> varkey set \<times> varkey set \<Rightarrow> error + varkey set \<times> varkey set" where
  "models_loop varname [] st = Inr st"
| "models_loop varname (m # ms) (summed, already) =
     (case depth_one (name m) (as_list (getitem m varname)) of
        Inl e \<Rightarrow> Inl e
      | Inr mvars \<Rightarrow>
          if length mvars \<noteq> 1 then Inl AssertionError
          else models_loop varname ms
                 (summed \<union> set (map key mvars), scan (flat m) already))"

text \<open>
  Lines 5 to 19 of the constructor: the value of the local \<^verbatim>\<open>summedvars\<close> after the
  final \<^verbatim>\<open>difference\<close>.
\<close>

definition summed_keys :: "string \<Rightarrow> model list \<Rightarrow> variable list \<Rightarrow> error + varkey set" where
  "summed_keys varname ms variables =
     (case models_loop varname ms (set (map key variables), {}) of
        Inl e \<Rightarrow> Inl e
      | Inr (summed, already) \<Rightarrow> Inr (summed - already))"

text \<open>
  The library's \<^verbatim>\<open>lhs >= rhs\<close> at line 20: it builds the constraint or raises. It raises
  when \<open>rhs\<close> is the number 0, which is what Python's \<^verbatim>\<open>sum\<close> returns for no terms. What
  else the library checks there and in \<^verbatim>\<open>ConstraintSet.__init__\<close> (the form of \<open>lhs\<close>, the
  units, the keyword arguments) is not in the repository: it is the parameter
  \<open>accepts\<close>, which sees \<open>lhs\<close> and the keys on the smaller side, the order of the terms
  making no difference to the library's sum.
\<close>

definition ge :: "(expr \<Rightarrow> varkey set \<Rightarrow> bool) \<Rightarrow> expr \<Rightarrow> expr \<Rightarrow> error + ineq" where
  "ge accepts lhs rhs =
     (if rhs = Num 0 then Inl LibraryError
      else if accepts lhs (varkeys rhs) then Inr (Geq lhs rhs)
      else Inl LibraryError)"

text \<open>
  \<^verbatim>\<open>SummingConstraintSet.__init__\<close>. The generator \<^verbatim>\<open>for vk in summedvars\<close> walks a Python
  set, in an order the language leaves open; \<open>iter\<close> is that order (the list in which a
  set is walked). An error of lines 5 to 19 ends the construction before line 20 is
  reached; an error of the library at lines 20 to 22 ends it with no object.
\<close>

definition init ::
  "(expr \<Rightarrow> varkey set \<Rightarrow> bool) \<Rightarrow> (varkey set \<Rightarrow> varkey list) \<Rightarrow>
     expr \<Rightarrow> string \<Rightarrow> model list \<Rightarrow> variable list \<Rightarrow> error + scs" where
  "init accepts iter lhs varname ms variables =
     (case summed_keys varname ms variables of
        Inl e \<Rightarrow> Inl e
      | Inr summed \<Rightarrow>
          (case ge accepts lhs (py_sum (map (\<lambda>vk. Variable (descr vk)) (iter summed))) of
             Inl e \<Rightarrow> Inl e
           | Inr c \<Rightarrow> Inr (SCS c)))"

text \<open>Walking a set yields each of its elements once.\<close>

definition enumerates :: "('a set \<Rightarrow> 'a list) \<Rightarrow> 'a set \<Rightarrow> bool" where
  "enumerates iter S \<longleftrightarrow> set (iter S) = S \<and> distinct (iter S)"

section \<open>The spec's notions\<close>

text \<open>
  The following definitions follow the words of the specification, not the code: the
  provenance chain of a variable, the candidates of a sub-model (the looked-up variable
  as a one-element list, or the looked-up collection), a depth-one match (the chain's
  first entry is the sub-model's name), the sub-models' matching variables, a sub-model
  that exposes exactly one of them, the nested SummingConstraintSets found by
  flattening, and the set the spec says is summed. \<open>empty_chain\<close> says that the lookup of
  a sub-model returns a variable whose provenance chain is empty.
\<close>

definition chain :: "variable \<Rightarrow> string list" where
  "chain v = models (descr (key v))"

definition candidates :: "string \<Rightarrow> model \<Rightarrow> variable list" where
  "candidates varname m = (case getitem m varname of Single v \<Rightarrow> [v] | Many vs \<Rightarrow> vs)"

definition depth_one_match :: "string \<Rightarrow> variable \<Rightarrow> bool" where
  "depth_one_match n v = (case chain v of [] \<Rightarrow> False | m0 # _ \<Rightarrow> m0 = n)"

definition matching :: "string \<Rightarrow> model \<Rightarrow> variable list" where
  "matching varname m = filter (depth_one_match (name m)) (candidates varname m)"

definition exposes_one :: "string \<Rightarrow> model \<Rightarrow> bool" where
  "exposes_one varname m \<longleftrightarrow> length (matching varname m) = 1"

definition empty_chain :: "string \<Rightarrow> model \<Rightarrow> bool" where
  "empty_chain varname m \<longleftrightarrow> (\<exists>v \<in> set (candidates varname m). chain v = [])"

fun nested :: "constraint list \<Rightarrow> scs list" where
  "nested [] = []"
| "nested (Summing s # cs) = s # nested cs"
| "nested (c # cs) = nested cs"

definition nested_summed :: "model list \<Rightarrow> varkey set" where
  "nested_summed ms = (\<Union>m \<in> set ms. \<Union>s \<in> set (nested (flat m)). summedvars s)"

definition matched_keys :: "string \<Rightarrow> model list \<Rightarrow> varkey set" where
  "matched_keys varname ms = (\<Union>m \<in> set ms. key ` set (matching varname m))"

definition spec_summedvars :: "string \<Rightarrow> model list \<Rightarrow> variable list \<Rightarrow> varkey set" where
  "spec_summedvars varname ms variables =
     (key ` set variables \<union> matched_keys varname ms) - nested_summed ms"

subsection \<open>Example data\<close>

text \<open>
  The spec's example: sub-models \<open>M1\<close> and \<open>M2\<close> each declare a power \<open>P\<close>, and the target
  is a total power. \<open>ex_model n r cs\<close> is a model named \<open>n\<close> that answers the lookup of
  \<open>P\<close> with \<open>r\<close> and holds the constraints \<open>cs\<close>.
\<close>

definition ex_key :: "string \<Rightarrow> string list \<Rightarrow> varkey" where
  "ex_key n ch = VarKey \<lparr>vname = n, models = ch, units = ''W'', label = ''power''\<rparr>"

definition ex_lhs :: expr where
  "ex_lhs = V (Var (ex_key ''P_total'' [''Aircraft'']))"

definition ex_model :: "string \<Rightarrow> lookup \<Rightarrow> constraint list \<Rightarrow> model" where
  "ex_model n r cs =
     \<lparr>name = n, getitem = (\<lambda>x. if x = ''P'' then r else Many []), constraints = cs\<rparr>"

definition ex_M1 :: model where
  "ex_M1 = ex_model ''M1'' (Single (Var (ex_key ''P'' [''M1'']))) []"

text \<open>
  An inner SummingConstraintSet that already sums the accessory power, and a model
  \<open>M2\<close> that holds it inside a nested constraint set.
\<close>

definition ex_inner :: scs where
  "ex_inner = SCS (Geq (V (Var (ex_key ''P'' [''M2''])))
                       (Add (Num 0) (V (Var (ex_key ''P_acc'' [''Aircraft''])))))"

definition ex_M2 :: model where
  "ex_M2 = ex_model ''M2'' (Single (Var (ex_key ''P'' [''M2''])))
             [CSet [Summing ex_inner]]"

text \<open>
  A model whose lookup returns its own \<open>P\<close> together with a variable that no model
  declared (an empty provenance chain), and a model that has no \<open>P\<close> at all.
\<close>

definition ex_M3 :: model where
  "ex_M3 = ex_model ''M3''
             (Many [Var (ex_key ''P'' [''M3'']), Var (ex_key ''P'' [])]) []"

definition ex_M4 :: model where
  "ex_M4 = ex_model ''M4'' (Many []) []"

text \<open>
  A model whose lookup returns a collection: its own \<open>P\<close> and the \<open>P\<close> of a battery model
  nested in it. And a model that holds a SummingConstraintSet which already sums the
  model's own \<open>P\<close>.
\<close>

definition ex_M5 :: model where
  "ex_M5 = ex_model ''M5''
             (Many [Var (ex_key ''P'' [''Battery'', ''M5'']), Var (ex_key ''P'' [''M5''])]) []"

definition ex_M6 :: model where
  "ex_M6 = ex_model ''M6'' (Single (Var (ex_key ''P'' [''M6''])))
             [Summing (SCS (Geq (V (Var (ex_key ''P_in'' [''M6''])))
                                (Add (Num 0) (V (Var (ex_key ''P'' [''M6'']))))))]"

text \<open>
  An example of the library's further checks: a single variable on the greater side,
  and its unit on every summed key.
\<close>

definition ex_accepts :: "expr \<Rightarrow> varkey set \<Rightarrow> bool" where
  "ex_accepts lhs S =
     (case lhs of V v \<Rightarrow> (\<forall>k \<in> S. units (descr k) = units (descr (key v))) | _ \<Rightarrow> False)"

text \<open>The accessory power, an explicit extra variable; and two orders of walking a set.\<close>

definition ex_acc :: variable where
  "ex_acc = Var (ex_key ''P_acc'' [''Aircraft''])"

definition ex_iter :: "varkey set \<Rightarrow> varkey list" where
  "ex_iter S = [ex_key ''P'' [''M1''], ex_key ''P'' [''M2'']]"

definition ex_iter_rev :: "varkey set \<Rightarrow> varkey list" where
  "ex_iter_rev S = [ex_key ''P'' [''M2''], ex_key ''P'' [''M1'']]"

section \<open>Properties of the loop\<close>

text \<open>
  The filter either raises on an empty chain or returns the depth-one matches; the scan
  adds the \<open>summedvars\<close> of the nested SummingConstraintSets; and the loop, when it returns,
  has added the matched keys of every sub-model and the nested keys of every sub-model,
  each sub-model having passed its filter and its assertion.
\<close>

lemma as_list_candidates: "as_list (getitem m varname) = candidates varname m"
  by (simp add: candidates_def split: lookup.split)

lemma depth_one_total:
  "depth_one n cs =
     (if \<exists>v \<in> set cs. chain v = [] then Inl IndexError
      else Inr (filter (depth_one_match n) cs))"
proof (induction cs)
  case Nil
  show ?case by simp
next
  case (Cons v cs)
  show ?case
  proof (cases "models (descr (key v))")
    case Nil
    then show ?thesis by (simp add: chain_def)
  next
    case (Cons m0 rest)
    then have "chain v \<noteq> []" and "depth_one_match n v \<longleftrightarrow> m0 = n"
      by (simp_all add: chain_def depth_one_match_def)
    with Cons Cons.IH show ?thesis by simp
  qed
qed

lemma depth_one_Inr:
  "depth_one n cs = Inr r \<longleftrightarrow> (\<forall>v \<in> set cs. chain v \<noteq> []) \<and> r = filter (depth_one_match n) cs"
  by (auto simp: depth_one_total)

lemma nested_mem: "s \<in> set (nested cs) \<longleftrightarrow> Summing s \<in> set cs"
  by (induction cs rule: nested.induct) auto

lemma scan_eq: "scan cs already = already \<union> (\<Union>s \<in> set (nested cs). summedvars s)"
  by (induction cs already rule: scan.induct) auto

lemma models_loop_Inr:
  "models_loop varname ms (summed, already) = Inr (summed', already') \<Longrightarrow>
     summed' = summed \<union> matched_keys varname ms \<and>
     already' = already \<union> nested_summed ms \<and>
     (\<forall>m \<in> set ms. \<not> empty_chain varname m \<and> exposes_one varname m)"
proof (induction ms arbitrary: summed already)
  case Nil
  then show ?case by (simp add: matched_keys_def nested_summed_def)
next
  case (Cons m ms)
  from Cons.prems obtain mvars where
    f: "depth_one (name m) (as_list (getitem m varname)) = Inr mvars" and
    l: "length mvars = 1" and
    rest: "models_loop varname ms (summed \<union> set (map key mvars), scan (flat m) already)
             = Inr (summed', already')"
    by (auto split: sum.splits if_splits)
  from f have ne: "\<not> empty_chain varname m" and mv: "mvars = matching varname m"
    by (auto simp: depth_one_Inr empty_chain_def matching_def as_list_candidates)
  from l mv have one: "exposes_one varname m" by (simp add: exposes_one_def)
  from Cons.IH [OF rest] ne one mv show ?case
    by (auto simp: matched_keys_def nested_summed_def scan_eq)
qed

lemma models_loop_ok:
  "\<forall>m \<in> set ms. \<not> empty_chain varname m \<and> exposes_one varname m \<Longrightarrow>
     \<exists>st'. models_loop varname ms st = Inr st'"
proof (induction ms arbitrary: st)
  case Nil
  then show ?case by simp
next
  case (Cons m ms)
  obtain summed already where st: "st = (summed, already)" by (cases st)
  from Cons.prems have "\<not> empty_chain varname m" "exposes_one varname m" by auto
  then have f: "depth_one (name m) (as_list (getitem m varname)) = Inr (matching varname m)"
    and l: "length (matching varname m) = 1"
    by (auto simp: depth_one_Inr empty_chain_def matching_def exposes_one_def
          as_list_candidates)
  from Cons.prems have "\<forall>m \<in> set ms. \<not> empty_chain varname m \<and> exposes_one varname m" by simp
  from Cons.IH [OF this] f l st show ?case by simp
qed

lemma summed_keys_Inr:
  "summed_keys varname ms variables = Inr S \<Longrightarrow>
     S = spec_summedvars varname ms variables \<and>
     (\<forall>m \<in> set ms. \<not> empty_chain varname m \<and> exposes_one varname m)"
  by (auto simp: summed_keys_def spec_summedvars_def split: sum.splits prod.splits
           dest!: models_loop_Inr)

lemma summed_keys_ok:
  assumes "\<forall>m \<in> set ms. \<not> empty_chain varname m \<and> exposes_one varname m"
  shows "summed_keys varname ms variables = Inr (spec_summedvars varname ms variables)"
proof -
  from models_loop_ok [OF assms] obtain st' where
    "models_loop varname ms (set (map key variables), {}) = Inr st'" by blast
  then obtain S where "summed_keys varname ms variables = Inr S"
    by (cases st') (simp add: summed_keys_def)
  with summed_keys_Inr show ?thesis by blast
qed

text \<open>The keys of the constraint that the constructor stores.\<close>

lemma varkeys_foldl:
  "varkeys (foldl (\<lambda>acc v. Add acc (V v)) e vs) = varkeys e \<union> key ` set vs"
  by (induction vs arbitrary: e) auto

lemma varkeys_py_sum: "varkeys (py_sum vs) = key ` set vs"
  by (simp add: py_sum_def varkeys_foldl)

lemma key_Variable: "key (Variable (descr vk)) = vk"
  by (simp add: Variable_def)

lemma py_sum_Num0: "py_sum vs = Num 0 \<longleftrightarrow> vs = []"
  by (cases vs rule: rev_cases) (simp_all add: py_sum_def)

lemma varkeys_terms: "varkeys (py_sum (map (\<lambda>vk. Variable (descr vk)) ks)) = set ks"
  by (simp add: varkeys_py_sum image_image key_Variable)

lemma init_Inr:
  "init accepts iter lhs varname ms variables = Inr s \<longleftrightarrow>
     (\<exists>S. summed_keys varname ms variables = Inr S \<and>
          iter S \<noteq> [] \<and> accepts lhs (set (iter S)) \<and>
          s = SCS (Geq lhs (py_sum (map (\<lambda>vk. Variable (descr vk)) (iter S)))))"
  by (auto simp: init_def ge_def py_sum_Num0 varkeys_terms split: sum.splits if_splits)

lemma init_Inl:
  "init accepts iter lhs varname ms variables = Inl e \<longleftrightarrow>
     summed_keys varname ms variables = Inl e \<or>
     (\<exists>S. summed_keys varname ms variables = Inr S \<and> e = LibraryError \<and>
          (iter S = [] \<or> \<not> accepts lhs (set (iter S))))"
  by (auto simp: init_def ge_def py_sum_Num0 varkeys_terms split: sum.splits if_splits)

lemma summedvars_built:
  "summedvars (SCS (Geq lhs (py_sum (map (\<lambda>vk. Variable (descr vk)) ks)))) = set ks"
  by (simp add: summedvars_def varkeys_py_sum image_image key_Variable)

text \<open>
  One round of the loop in the spec's terms, and the error of the first sub-model that
  fails.
\<close>

lemma model_step:
  "depth_one (name m) (as_list (getitem m varname)) =
     (if empty_chain varname m then Inl IndexError else Inr (matching varname m))"
  by (simp add: depth_one_total empty_chain_def matching_def as_list_candidates)

lemma models_loop_step:
  "models_loop varname (m # ms) (summed, already) =
     (if empty_chain varname m then Inl IndexError
      else if \<not> exposes_one varname m then Inl AssertionError
      else models_loop varname ms
             (summed \<union> key ` set (matching varname m), scan (flat m) already))"
  by (simp add: model_step exposes_one_def)

lemma models_loop_prefix:
  assumes "\<forall>m' \<in> set pre. \<not> empty_chain varname m' \<and> exposes_one varname m'"
    and "empty_chain varname m \<or> \<not> exposes_one varname m"
  shows "models_loop varname (pre @ m # post) st =
           Inl (if empty_chain varname m then IndexError else AssertionError)"
  using assms(1)
proof (induction pre arbitrary: st)
  case Nil
  from assms(2) show ?case
    by (cases st) (auto simp: models_loop_step simp del: models_loop.simps)
next
  case (Cons p pre)
  obtain summed already where st: "st = (summed, already)" by (cases st)
  from Cons.prems have p: "\<not> empty_chain varname p" "exposes_one varname p"
    and rest: "\<forall>m' \<in> set pre. \<not> empty_chain varname m' \<and> exposes_one varname m'"
    by auto
  from Cons.IH [OF rest] p st show ?case
    by (simp add: models_loop_step del: models_loop.simps)
qed

lemma models_loop_Inl:
  "models_loop varname ms st = Inl e \<Longrightarrow>
     \<exists>m \<in> set ms. (e = IndexError \<and> empty_chain varname m) \<or>
                   (e = AssertionError \<and> \<not> empty_chain varname m \<and> \<not> exposes_one varname m)"
proof (induction ms arbitrary: st)
  case Nil
  then show ?case by simp
next
  case (Cons m ms)
  obtain summed already where st: "st = (summed, already)" by (cases st)
  show ?case
  proof (cases "empty_chain varname m \<or> \<not> exposes_one varname m")
    case True
    with Cons.prems st show ?thesis
      by (auto simp: models_loop_step simp del: models_loop.simps split: if_splits)
  next
    case False
    with Cons.prems st have
      "models_loop varname ms
         (summed \<union> key ` set (matching varname m), scan (flat m) already) = Inl e"
      by (simp add: models_loop_step del: models_loop.simps)
    from Cons.IH [OF this] show ?thesis by auto
  qed
qed

lemma summed_keys_Inl:
  "summed_keys varname ms variables = Inl e \<longleftrightarrow>
     models_loop varname ms (set (map key variables), {}) = Inl e"
  by (auto simp: summed_keys_def split: sum.splits prod.splits)

lemma init_summedvars:
  assumes "init accepts iter lhs varname ms variables = Inr s"
    and "enumerates iter (spec_summedvars varname ms variables)"
  shows "summedvars s = spec_summedvars varname ms variables"
proof -
  from assms(1) obtain S where S: "summed_keys varname ms variables = Inr S"
    and s: "s = SCS (Geq lhs (py_sum (map (\<lambda>vk. Variable (descr vk)) (iter S))))"
    by (auto simp: init_Inr)
  from S have "S = spec_summedvars varname ms variables"
    by (simp add: summed_keys_Inr)
  with assms(2) s show ?thesis
    by (simp add: summedvars_built enumerates_def)
qed

lemma init_prefix:
  assumes "\<forall>m' \<in> set pre. \<not> empty_chain varname m' \<and> exposes_one varname m'"
    and "empty_chain varname m \<or> \<not> exposes_one varname m"
  shows "init accepts iter lhs varname (pre @ m # post) variables =
           Inl (if empty_chain varname m then IndexError else AssertionError)"
proof -
  have "summed_keys varname (pre @ m # post) variables =
          Inl (if empty_chain varname m then IndexError else AssertionError)"
    by (simp only: summed_keys_Inl models_loop_prefix [OF assms])
  then show ?thesis by (simp only: init_Inl) simp
qed

lemma init_fails:
  assumes "m \<in> set ms" and "empty_chain varname m \<or> \<not> exposes_one varname m"
  shows "\<exists>e. init accepts iter lhs varname ms variables = Inl e"
proof (cases "init accepts iter lhs varname ms variables")
  case (Inl e)
  then show ?thesis by simp
next
  case (Inr s)
  then obtain S where "summed_keys varname ms variables = Inr S"
    by (auto simp: init_Inr)
  with assms show ?thesis by (auto dest: summed_keys_Inr)
qed

text \<open>
  When every sub-model passes, the outcome is the library's: it refuses the sum of no
  keys and whatever its further checks refuse.
\<close>

lemma init_library:
  assumes "\<forall>m \<in> set ms. \<not> empty_chain varname m \<and> exposes_one varname m"
    and "enumerates iter (spec_summedvars varname ms variables)"
  shows "init accepts iter lhs varname ms variables =
           (if spec_summedvars varname ms variables = {} \<or>
               \<not> accepts lhs (spec_summedvars varname ms variables)
            then Inl LibraryError
            else Inr (SCS (Geq lhs (py_sum (map (\<lambda>vk. Variable (descr vk))
                                 (iter (spec_summedvars varname ms variables)))))))"
proof -
  let ?S = "spec_summedvars varname ms variables"
  have S: "summed_keys varname ms variables = Inr ?S"
    using assms(1) by (rule summed_keys_ok)
  from assms(2) have "set (iter ?S) = ?S" by (simp add: enumerates_def)
  then have "iter ?S = [] \<longleftrightarrow> ?S = {}" "accepts lhs (set (iter ?S)) = accepts lhs ?S"
    by auto
  with S show ?thesis
    by (simp add: init_def ge_def py_sum_Num0 varkeys_terms)
qed

section \<open>Facts about the example data\<close>

lemma ex_simps:
  "name (ex_model n r cs) = n"
  "getitem (ex_model n r cs) x = (if x = ''P'' then r else Many [])"
  "constraints (ex_model n r cs) = cs"
  by (simp_all add: ex_model_def)

lemma chain_ex [simp]: "chain (Var (ex_key n ch)) = ch"
  by (simp add: chain_def ex_key_def)

lemma ex_key_eq [simp]: "ex_key n ch = ex_key n' ch' \<longleftrightarrow> n = n' \<and> ch = ch'"
  by (simp add: ex_key_def)

lemma ex_units [simp]: "units (descr (ex_key n ch)) = ''W''"
  by (simp add: ex_key_def)

lemma ex_accepts_lhs [simp]:
  "ex_accepts ex_lhs S \<longleftrightarrow> (\<forall>k \<in> S. units (descr k) = ''W'')"
  by (simp add: ex_accepts_def ex_lhs_def)

lemma ex_candidates:
  "candidates ''P'' ex_M1 = [Var (ex_key ''P'' [''M1''])]"
  "candidates ''P'' ex_M2 = [Var (ex_key ''P'' [''M2''])]"
  "candidates ''P'' ex_M3 = [Var (ex_key ''P'' [''M3'']), Var (ex_key ''P'' [])]"
  "candidates ''P'' ex_M4 = []"
  "candidates ''P'' ex_M5 = [Var (ex_key ''P'' [''Battery'', ''M5'']), Var (ex_key ''P'' [''M5''])]"
  "candidates ''P'' ex_M6 = [Var (ex_key ''P'' [''M6''])]"
  by (simp_all add: candidates_def ex_simps
        ex_M1_def ex_M2_def ex_M3_def ex_M4_def ex_M5_def ex_M6_def)

lemma ex_names:
  "name ex_M1 = ''M1''" "name ex_M2 = ''M2''" "name ex_M3 = ''M3''"
  "name ex_M4 = ''M4''" "name ex_M5 = ''M5''" "name ex_M6 = ''M6''"
  by (simp_all add: ex_simps ex_M1_def ex_M2_def ex_M3_def ex_M4_def ex_M5_def ex_M6_def)

lemma ex_matching:
  "matching ''P'' ex_M1 = [Var (ex_key ''P'' [''M1''])]"
  "matching ''P'' ex_M2 = [Var (ex_key ''P'' [''M2''])]"
  "matching ''P'' ex_M3 = [Var (ex_key ''P'' [''M3''])]"
  "matching ''P'' ex_M4 = []"
  "matching ''P'' ex_M5 = [Var (ex_key ''P'' [''M5''])]"
  "matching ''P'' ex_M6 = [Var (ex_key ''P'' [''M6''])]"
  by (simp_all add: matching_def ex_candidates ex_names depth_one_match_def)

lemma ex_good:
  "\<not> empty_chain ''P'' ex_M1" "exposes_one ''P'' ex_M1"
  "\<not> empty_chain ''P'' ex_M2" "exposes_one ''P'' ex_M2"
  "\<not> empty_chain ''P'' ex_M5" "exposes_one ''P'' ex_M5"
  "\<not> empty_chain ''P'' ex_M6" "exposes_one ''P'' ex_M6"
  by (simp_all add: empty_chain_def exposes_one_def ex_matching ex_candidates)

lemma ex_M3_facts:
  "empty_chain ''P'' ex_M3" "exposes_one ''P'' ex_M3"
  by (simp_all add: empty_chain_def exposes_one_def ex_matching ex_candidates)

lemma ex_M4_facts:
  "\<not> empty_chain ''P'' ex_M4" "\<not> exposes_one ''P'' ex_M4"
  by (simp_all add: empty_chain_def exposes_one_def ex_matching ex_candidates)

lemma ex_flat:
  "flat ex_M1 = []"
  "flat ex_M2 = [CSet [Summing ex_inner], Summing ex_inner,
                 Ineq (Geq (V (Var (ex_key ''P'' [''M2''])))
                           (Add (Num 0) (V (Var (ex_key ''P_acc'' [''Aircraft''])))))]"
  "flat ex_M3 = []"
  "flat ex_M4 = []"
  "flat ex_M5 = []"
  by (simp_all add: flat_def ex_M1_def ex_M2_def ex_M3_def ex_M4_def ex_M5_def ex_simps
        ex_inner_def)

lemma ex_inner_summedvars: "summedvars ex_inner = {ex_key ''P_acc'' [''Aircraft'']}"
  by (simp add: summedvars_def ex_inner_def)

lemma ex_spec_12:
  "spec_summedvars ''P'' [ex_M1, ex_M2] [ex_acc]
     = {ex_key ''P'' [''M1''], ex_key ''P'' [''M2'']}"
  by (auto simp: spec_summedvars_def matched_keys_def nested_summed_def
       ex_matching ex_flat ex_inner_summedvars ex_acc_def)

lemma ex_init_12:
  "init ex_accepts ex_iter ex_lhs ''P'' [ex_M1, ex_M2] [ex_acc] =
     Inr (SCS (Geq ex_lhs (py_sum [Var (ex_key ''P'' [''M1'']), Var (ex_key ''P'' [''M2''])])))"
  "init ex_accepts ex_iter_rev ex_lhs ''P'' [ex_M1, ex_M2] [ex_acc] =
     Inr (SCS (Geq ex_lhs (py_sum [Var (ex_key ''P'' [''M2'']), Var (ex_key ''P'' [''M1''])])))"
  by (simp_all add: init_def ge_def summed_keys_def flat_def summedvars_def py_sum_def
        Variable_def ex_M1_def ex_M2_def ex_model_def ex_inner_def ex_acc_def
        ex_iter_def ex_iter_rev_def ex_accepts_def ex_lhs_def ex_key_def)

lemma ex_enumerates_12:
  "enumerates ex_iter (spec_summedvars ''P'' [ex_M1, ex_M2] [ex_acc])"
  "enumerates ex_iter_rev (spec_summedvars ''P'' [ex_M1, ex_M2] [ex_acc])"
  unfolding ex_spec_12 by (auto simp: enumerates_def ex_iter_def ex_iter_rev_def)

section \<open>The claims\<close>

text \<open>
  Claim C1. When every listed sub-model exposes exactly one depth-one variable named
  \<open>varname\<close>, the \<open>summedvars\<close> of a constructed set is the union of the keys of the
  explicit variables and of the sub-models' matching variables, minus the \<open>summedvars\<close>
  of every nested SummingConstraintSet found by flattening the sub-models.
\<close>

theorem C1_summedvars_formula:
  assumes "\<forall>m \<in> set ms. exposes_one varname m"
    and "enumerates iter (spec_summedvars varname ms variables)"
  shows "\<forall>s. init accepts iter lhs varname ms variables = Inr s \<longrightarrow>
             summedvars s = spec_summedvars varname ms variables"
  using assms by (auto simp: init_summedvars)

theorem C1_summedvars_formula_witness:
  "exposes_one ''P'' ex_M5 \<and> exposes_one ''P'' ex_M2 \<and>
   spec_summedvars ''P'' [ex_M5, ex_M2] [ex_acc] = {ex_key ''P'' [''M5''], ex_key ''P'' [''M2'']} \<and>
   enumerates (\<lambda>_. [ex_key ''P'' [''M5''], ex_key ''P'' [''M2'']])
     (spec_summedvars ''P'' [ex_M5, ex_M2] [ex_acc]) \<and>
   init ex_accepts (\<lambda>_. [ex_key ''P'' [''M5''], ex_key ''P'' [''M2'']]) ex_lhs ''P''
       [ex_M5, ex_M2] [ex_acc] =
     Inr (SCS (Geq ex_lhs (py_sum [Var (ex_key ''P'' [''M5'']), Var (ex_key ''P'' [''M2''])]))) \<and>
   summedvars (SCS (Geq ex_lhs (py_sum [Var (ex_key ''P'' [''M5'']), Var (ex_key ''P'' [''M2''])])))
     = {ex_key ''P'' [''M5''], ex_key ''P'' [''M2'']}"
proof -
  let ?iter = "\<lambda>_ :: varkey set. [ex_key ''P'' [''M5''], ex_key ''P'' [''M2'']]"
  let ?s = "SCS (Geq ex_lhs (py_sum [Var (ex_key ''P'' [''M5'']), Var (ex_key ''P'' [''M2''])]))"
  have sp: "spec_summedvars ''P'' [ex_M5, ex_M2] [ex_acc]
              = {ex_key ''P'' [''M5''], ex_key ''P'' [''M2'']}"
    by (auto simp: spec_summedvars_def matched_keys_def nested_summed_def
          ex_matching ex_flat ex_inner_summedvars ex_acc_def)
  have h1: "\<forall>m \<in> set [ex_M5, ex_M2]. exposes_one ''P'' m"
    by (simp add: ex_good)
  have h2: "enumerates ?iter (spec_summedvars ''P'' [ex_M5, ex_M2] [ex_acc])"
    unfolding sp by (simp add: enumerates_def)
  have h3: "init ex_accepts ?iter ex_lhs ''P'' [ex_M5, ex_M2] [ex_acc] = Inr ?s"
    by (simp add: init_def ge_def summed_keys_def flat_def summedvars_def py_sum_def
          Variable_def ex_M5_def ex_M2_def ex_model_def ex_inner_def ex_acc_def
          ex_accepts_def ex_lhs_def ex_key_def)
  from C1_summedvars_formula [OF h1 h2, of ex_accepts ex_lhs] h3
  have "summedvars ?s = spec_summedvars ''P'' [ex_M5, ex_M2] [ex_acc]" by blast
  with sp h1 h2 h3 show ?thesis by simp
qed

text \<open>
  Claim C2. If \<open>b\<close> is a SummingConstraintSet found by flattening one of the sub-models
  handed to the constructor of \<open>a\<close> (so \<open>b\<close> existed before \<open>a\<close> was built), then \<open>a\<close> and
  \<open>b\<close> sum no key in common.
\<close>

theorem C2_no_double_counting:
  assumes "init accepts iter lhs varname ms variables = Inr a"
    and "enumerates iter (spec_summedvars varname ms variables)"
    and "m \<in> set ms"
    and "Summing b \<in> set (flat m)"
  shows "summedvars a \<inter> summedvars b = {}"
proof -
  from assms(1,2) have a: "summedvars a = spec_summedvars varname ms variables"
    by (rule init_summedvars)
  from assms(4) have "b \<in> set (nested (flat m))"
    by (simp add: nested_mem)
  with assms(3) have "summedvars b \<subseteq> nested_summed ms"
    by (auto simp: nested_summed_def)
  with a show ?thesis by (auto simp: spec_summedvars_def)
qed

theorem C2_no_double_counting_witness:
  "init ex_accepts (\<lambda>_. [key ex_acc]) (V (Var (ex_key ''P'' [''M2''])))  ''P'' [] [ex_acc]
     = Inr ex_inner \<and>
   init ex_accepts ex_iter ex_lhs ''P'' [ex_M1, ex_M2] [ex_acc] =
     Inr (SCS (Geq ex_lhs (py_sum [Var (ex_key ''P'' [''M1'']), Var (ex_key ''P'' [''M2''])]))) \<and>
   Summing ex_inner \<in> set (flat ex_M2) \<and>
   summedvars (SCS (Geq ex_lhs (py_sum [Var (ex_key ''P'' [''M1'']), Var (ex_key ''P'' [''M2''])])))
     \<inter> summedvars ex_inner = {}"
proof -
  have b: "init ex_accepts (\<lambda>_. [key ex_acc]) (V (Var (ex_key ''P'' [''M2''])))  ''P'' [] [ex_acc]
             = Inr ex_inner"
    by (simp add: init_def ge_def summed_keys_def py_sum_def Variable_def ex_inner_def
          ex_acc_def ex_accepts_def)
  note h1 = ex_init_12(1)
  note h2 = ex_enumerates_12(1)
  have h3: "ex_M2 \<in> set [ex_M1, ex_M2]" by simp
  have h4: "Summing ex_inner \<in> set (flat ex_M2)" by (simp add: ex_flat)
  from C2_no_double_counting [OF h1 h2 h3 h4] b h1 h4 show ?thesis by simp
qed

text \<open>
  Claim C3, as stated, fails in both directions of its "only if". The model \<open>ex_M3\<close>
  exposes exactly one variable whose chain starts with its name, and the construction
  raises, because the filter indexes the empty chain of the other variable the lookup
  returned. And \<open>ex_M6\<close> passes its filter and its assertion, but its own \<open>P\<close> is already
  summed inside it, so no key is left, the sum is the number 0, and the library
  refuses the constraint.
\<close>

theorem C3_error_iff_counterexample:
  "exposes_one ''P'' ex_M3 \<and>
   init ex_accepts ex_iter ex_lhs ''P'' [ex_M3] [] = Inl IndexError \<and>
   exposes_one ''P'' ex_M6 \<and> \<not> empty_chain ''P'' ex_M6 \<and>
   init ex_accepts (\<lambda>_. []) ex_lhs ''P'' [ex_M6] [] = Inl LibraryError"
proof -
  have "init ex_accepts ex_iter ex_lhs ''P'' [ex_M3] [] = Inl IndexError"
    by (simp add: init_def summed_keys_def ex_M3_def ex_model_def ex_key_def)
  moreover have "init ex_accepts (\<lambda>_. []) ex_lhs ''P'' [ex_M6] [] = Inl LibraryError"
    by (simp add: init_def ge_def summed_keys_def flat_def summedvars_def py_sum_def
          ex_M6_def ex_model_def ex_key_def)
  ultimately show ?thesis by (simp add: ex_M3_facts ex_good)
qed

text \<open>
  Claim C3, amended. The construction raises an error if and only if some listed
  sub-model returns, under \<open>varname\<close>, a variable with an empty provenance chain, or does
  not expose exactly one variable whose chain starts with the sub-model's name, or the
  library refuses the constraint of line 20, as it does when no key is left to sum. The
  library's error is the one raised exactly when every sub-model passes and the library
  refuses; in each case no SummingConstraintSet is produced.
\<close>

theorem C3_error_iff:
  assumes "enumerates iter (spec_summedvars varname ms variables)"
  shows "((\<exists>e. init accepts iter lhs varname ms variables = Inl e) \<longleftrightarrow>
            (\<exists>m \<in> set ms. empty_chain varname m \<or> \<not> exposes_one varname m) \<or>
            spec_summedvars varname ms variables = {} \<or>
            \<not> accepts lhs (spec_summedvars varname ms variables)) \<and>
         (init accepts iter lhs varname ms variables = Inl LibraryError \<longleftrightarrow>
            (\<forall>m \<in> set ms. \<not> empty_chain varname m \<and> exposes_one varname m) \<and>
            (spec_summedvars varname ms variables = {} \<or>
             \<not> accepts lhs (spec_summedvars varname ms variables)))"
proof (cases "\<forall>m \<in> set ms. \<not> empty_chain varname m \<and> exposes_one varname m")
  case True
  from init_library [OF True assms, of accepts lhs] True show ?thesis
    by (auto split: if_splits)
next
  case False
  then obtain m where m: "m \<in> set ms" "empty_chain varname m \<or> \<not> exposes_one varname m"
    by blast
  then obtain e where e: "init accepts iter lhs varname ms variables = Inl e"
    using init_fails by blast
  have "e \<noteq> LibraryError"
  proof
    assume "e = LibraryError"
    with e obtain S where "summed_keys varname ms variables = Inr S"
      by (auto simp: init_Inl summed_keys_Inl dest: models_loop_Inl)
    with False show False by (auto dest: summed_keys_Inr)
  qed
  with e m False show ?thesis by auto
qed

theorem C3_error_iff_witness:
  "enumerates (\<lambda>_. [ex_key ''P'' [''M1'']]) (spec_summedvars ''P'' [ex_M1, ex_M4] []) \<and>
   \<not> empty_chain ''P'' ex_M4 \<and> \<not> exposes_one ''P'' ex_M4 \<and>
   (\<exists>e. init ex_accepts (\<lambda>_. [ex_key ''P'' [''M1'']]) ex_lhs ''P'' [ex_M1, ex_M4] [] = Inl e) \<and>
   init ex_accepts (\<lambda>_. [ex_key ''P'' [''M1'']]) ex_lhs ''P'' [ex_M1, ex_M4] [] \<noteq> Inl LibraryError"
proof -
  let ?iter = "\<lambda>_ :: varkey set. [ex_key ''P'' [''M1'']]"
  have sp: "spec_summedvars ''P'' [ex_M1, ex_M4] [] = {ex_key ''P'' [''M1'']}"
    by (auto simp: spec_summedvars_def matched_keys_def nested_summed_def
          ex_matching ex_flat)
  have h: "enumerates ?iter (spec_summedvars ''P'' [ex_M1, ex_M4] [])"
    unfolding sp by (simp add: enumerates_def)
  have bad: "\<exists>m \<in> set [ex_M1, ex_M4]. empty_chain ''P'' m \<or> \<not> exposes_one ''P'' m"
    by (simp add: ex_M4_facts)
  have nall: "\<not> (\<forall>m \<in> set [ex_M1, ex_M4]. \<not> empty_chain ''P'' m \<and> exposes_one ''P'' m)"
    by (simp add: ex_M4_facts)
  from C3_error_iff [OF h, of ex_accepts ex_lhs] bad nall h ex_M4_facts
  show ?thesis by blast
qed

text \<open>
  Claim C4. A single looked-up value is taken as a one-element list and a collection as
  it is; the filter raises on an empty chain and otherwise keeps exactly the variables
  whose chain starts with the sub-model's name; and every key that a constructed set
  sums is the key of an explicit variable or of a candidate that passes this filter.
\<close>

theorem C4_depth_one_filter:
  "as_list (Single v) = [v] \<and> as_list (Many vs) = vs \<and>
   depth_one n cs =
     (if \<exists>c \<in> set cs. chain c = [] then Inl IndexError
      else Inr (filter (depth_one_match n) cs)) \<and>
   (\<forall>s. init accepts iter lhs varname ms variables = Inr s \<and>
        enumerates iter (spec_summedvars varname ms variables) \<longrightarrow>
        (\<forall>k \<in> summedvars s.
           k \<in> key ` set variables \<or>
           (\<exists>m \<in> set ms. \<exists>c \<in> set (candidates varname m).
              k = key c \<and> depth_one_match (name m) c)))"
proof (intro conjI allI impI)
  show "as_list (Single v) = [v]" "as_list (Many vs) = vs" by simp_all
next
  show "depth_one n cs =
     (if \<exists>c \<in> set cs. chain c = [] then Inl IndexError
      else Inr (filter (depth_one_match n) cs))"
    by (rule depth_one_total)
next
  fix s
  assume "init accepts iter lhs varname ms variables = Inr s \<and>
          enumerates iter (spec_summedvars varname ms variables)"
  then have "init accepts iter lhs varname ms variables = Inr s"
    and "enumerates iter (spec_summedvars varname ms variables)"
    by simp_all
  then have "summedvars s = spec_summedvars varname ms variables"
    by (rule init_summedvars)
  then show "\<forall>k \<in> summedvars s.
      k \<in> key ` set variables \<or>
      (\<exists>m \<in> set ms. \<exists>c \<in> set (candidates varname m).
         k = key c \<and> depth_one_match (name m) c)"
    by (auto simp: spec_summedvars_def matched_keys_def matching_def)
qed

theorem C4_depth_one_filter_witness:
  "as_list (Many [Var (ex_key ''P'' [''Battery'', ''M5'']), Var (ex_key ''P'' [''M5''])])
     = [Var (ex_key ''P'' [''Battery'', ''M5'']), Var (ex_key ''P'' [''M5''])] \<and>
   depth_one ''M5'' [Var (ex_key ''P'' [''Battery'', ''M5'']), Var (ex_key ''P'' [''M5''])]
     = Inr [Var (ex_key ''P'' [''M5''])] \<and>
   depth_one ''M3'' [Var (ex_key ''P'' [''M3'']), Var (ex_key ''P'' [])] = Inl IndexError \<and>
   init ex_accepts (\<lambda>_. [ex_key ''P'' [''M5'']]) ex_lhs ''P'' [ex_M5] [] =
     Inr (SCS (Geq ex_lhs (py_sum [Var (ex_key ''P'' [''M5''])]))) \<and>
   ex_key ''P'' [''Battery'', ''M5'']
     \<notin> summedvars (SCS (Geq ex_lhs (py_sum [Var (ex_key ''P'' [''M5''])])))"
proof -
  let ?bat = "Var (ex_key ''P'' [''Battery'', ''M5''])"
  let ?own = "Var (ex_key ''P'' [''M5''])"
  let ?iter = "\<lambda>_ :: varkey set. [ex_key ''P'' [''M5'']]"
  let ?s = "SCS (Geq ex_lhs (py_sum [?own]))"
  note c4 = C4_depth_one_filter [of _ "[?bat, ?own]" _ _ ex_accepts ?iter ex_lhs "''P''" "[ex_M5]" "[]"]
  have sp: "spec_summedvars ''P'' [ex_M5] [] = {ex_key ''P'' [''M5'']}"
    by (auto simp: spec_summedvars_def matched_keys_def nested_summed_def ex_matching ex_flat)
  have h1: "init ex_accepts ?iter ex_lhs ''P'' [ex_M5] [] = Inr ?s"
    by (simp add: init_def ge_def summed_keys_def flat_def py_sum_def Variable_def
          ex_M5_def ex_model_def ex_accepts_def ex_lhs_def ex_key_def)
  have h2: "enumerates ?iter (spec_summedvars ''P'' [ex_M5] [])"
    unfolding sp by (simp add: enumerates_def)
  from c4 have a: "as_list (Many [?bat, ?own]) = [?bat, ?own]" by blast
  from c4 [of _ "''M5''" "[?bat, ?own]"]
  have f1: "depth_one ''M5'' [?bat, ?own] = Inr [?own]"
    by (simp add: depth_one_match_def)
  from c4 [of _ "''M3''" "[Var (ex_key ''P'' [''M3'']), Var (ex_key ''P'' [])]"]
  have f2: "depth_one ''M3'' [Var (ex_key ''P'' [''M3'']), Var (ex_key ''P'' [])]
              = Inl IndexError"
    by simp
  from c4 h1 h2 have
    "\<forall>k \<in> summedvars ?s. k \<in> key ` set [] \<or>
       (\<exists>m \<in> set [ex_M5]. \<exists>c \<in> set (candidates ''P'' m).
          k = key c \<and> depth_one_match (name m) c)"
    by blast
  then have "ex_key ''P'' [''Battery'', ''M5''] \<notin> summedvars ?s"
    by (auto simp: ex_candidates ex_names depth_one_match_def)
  with a f1 f2 h1 show ?thesis by simp
qed

text \<open>
  Claim C5, as stated, fails: the accessory power is handed over as an explicit
  variable, the sub-model \<open>M2\<close> holds a nested SummingConstraintSet that already sums
  it, and the constructed set does not sum it.
\<close>

theorem C5_explicit_variables_counterexample:
  "ex_acc \<in> set [ex_acc] \<and>
   init ex_accepts ex_iter ex_lhs ''P'' [ex_M1, ex_M2] [ex_acc] =
     Inr (SCS (Geq ex_lhs (py_sum [Var (ex_key ''P'' [''M1'']), Var (ex_key ''P'' [''M2''])]))) \<and>
   key ex_acc \<notin>
     summedvars (SCS (Geq ex_lhs (py_sum [Var (ex_key ''P'' [''M1'']), Var (ex_key ''P'' [''M2''])])))"
proof -
  have "key ex_acc \<notin>
     summedvars (SCS (Geq ex_lhs (py_sum [Var (ex_key ''P'' [''M1'']), Var (ex_key ''P'' [''M2''])])))"
    by (simp add: summedvars_def varkeys_py_sum ex_acc_def)
  with ex_init_12(1) show ?thesis by simp
qed

text \<open>
  Claim C5, amended. The key of an explicit variable is summed by the constructed set
  exactly when no nested SummingConstraintSet found by flattening the listed sub-models
  already sums it.
\<close>

theorem C5_explicit_variables:
  assumes "v \<in> set variables"
    and "init accepts iter lhs varname ms variables = Inr s"
    and "enumerates iter (spec_summedvars varname ms variables)"
  shows "key v \<in> summedvars s \<longleftrightarrow> key v \<notin> nested_summed ms"
proof -
  from assms(2,3) have "summedvars s = spec_summedvars varname ms variables"
    by (rule init_summedvars)
  with assms(1) show ?thesis by (auto simp: spec_summedvars_def)
qed

theorem C5_explicit_variables_witness:
  "ex_acc \<in> set [ex_acc] \<and>
   init ex_accepts (\<lambda>_. [key ex_acc, ex_key ''P'' [''M1'']]) ex_lhs ''P'' [ex_M1] [ex_acc] =
     Inr (SCS (Geq ex_lhs (py_sum [ex_acc, Var (ex_key ''P'' [''M1''])]))) \<and>
   key ex_acc \<notin> nested_summed [ex_M1] \<and>
   key ex_acc \<in> summedvars (SCS (Geq ex_lhs (py_sum [ex_acc, Var (ex_key ''P'' [''M1''])])))"
proof -
  let ?iter = "\<lambda>_ :: varkey set. [key ex_acc, ex_key ''P'' [''M1'']]"
  let ?s = "SCS (Geq ex_lhs (py_sum [ex_acc, Var (ex_key ''P'' [''M1''])]))"
  have sp: "spec_summedvars ''P'' [ex_M1] [ex_acc] = {key ex_acc, ex_key ''P'' [''M1'']}"
    by (auto simp: spec_summedvars_def matched_keys_def nested_summed_def
          ex_matching ex_flat)
  have h2: "init ex_accepts ?iter ex_lhs ''P'' [ex_M1] [ex_acc] = Inr ?s"
    by (simp add: init_def ge_def summed_keys_def flat_def py_sum_def Variable_def
          ex_M1_def ex_model_def ex_acc_def ex_accepts_def ex_lhs_def ex_key_def)
  have h1: "ex_acc \<in> set [ex_acc]" by simp
  have h3: "enumerates ?iter (spec_summedvars ''P'' [ex_M1] [ex_acc])"
    unfolding sp by (simp add: enumerates_def ex_acc_def)
  have n: "key ex_acc \<notin> nested_summed [ex_M1]"
    by (simp add: nested_summed_def ex_flat)
  from C5_explicit_variables [OF h1 h2 h3] n h1 h2 show ?thesis by simp
qed

text \<open>
  Claim C6. The property \<open>summedvars\<close> is computed from the stored constraint (the keys
  of the variables of its summed side); for a constructed set it returns the set of
  keys the constructor computed, since the variable rebuilt from a key's descriptor
  has that key again.
\<close>

theorem C6_summedvars_recomputed:
  assumes "init accepts iter lhs varname ms variables = Inr s"
    and "summed_keys varname ms variables = Inr S"
    and "enumerates iter S"
  shows "summedvars s = S \<and>
         varkeys (p_lt (items s ! 0)) = S \<and>
         (\<forall>vk \<in> S. key (Variable (descr vk)) = vk)"
proof -
  from assms(1,2) have "s = SCS (Geq lhs (py_sum (map (\<lambda>vk. Variable (descr vk)) (iter S))))"
    by (simp add: init_Inr)
  with assms(3) have "summedvars s = S"
    by (simp add: summedvars_built enumerates_def)
  then show ?thesis by (simp add: summedvars_def key_Variable)
qed

theorem C6_summedvars_recomputed_witness:
  "init ex_accepts ex_iter ex_lhs ''P'' [ex_M1, ex_M2] [ex_acc] =
     Inr (SCS (Geq ex_lhs (py_sum [Var (ex_key ''P'' [''M1'']), Var (ex_key ''P'' [''M2''])]))) \<and>
   summed_keys ''P'' [ex_M1, ex_M2] [ex_acc] = Inr {ex_key ''P'' [''M1''], ex_key ''P'' [''M2'']} \<and>
   enumerates ex_iter {ex_key ''P'' [''M1''], ex_key ''P'' [''M2'']} \<and>
   summedvars (SCS (Geq ex_lhs (py_sum [Var (ex_key ''P'' [''M1'']), Var (ex_key ''P'' [''M2''])])))
     = {ex_key ''P'' [''M1''], ex_key ''P'' [''M2'']} \<and>
   key (Variable (descr (ex_key ''P'' [''M1'']))) = ex_key ''P'' [''M1'']"
proof -
  let ?S = "{ex_key ''P'' [''M1''], ex_key ''P'' [''M2'']}"
  note h1 = ex_init_12(1)
  have "summed_keys ''P'' [ex_M1, ex_M2] [ex_acc]
          = Inr (spec_summedvars ''P'' [ex_M1, ex_M2] [ex_acc])"
    by (rule summed_keys_ok) (simp add: ex_good)
  then have h2: "summed_keys ''P'' [ex_M1, ex_M2] [ex_acc] = Inr ?S"
    by (simp add: ex_spec_12)
  have h3: "enumerates ex_iter ?S"
    by (simp add: enumerates_def ex_iter_def)
  from C6_summedvars_recomputed [OF h1 h2 h3] h1 h2 h3 show ?thesis by simp
qed

text \<open>
  Claim C7. A constructed SummingConstraintSet holds exactly one constraint,
  \<open>lhs >= sum\<close>, where the sum adds one variable, rebuilt from the key's descriptor,
  for each key of the computed set.
\<close>

theorem C7_single_constraint:
  assumes "init accepts iter lhs varname ms variables = Inr s"
    and "summed_keys varname ms variables = Inr S"
    and "enumerates iter S"
  shows "\<exists>terms. items s = [Geq lhs (py_sum terms)] \<and>
           terms = map (\<lambda>vk. Variable (descr vk)) (iter S) \<and>
           map key terms = iter S \<and> set (iter S) = S \<and> distinct (iter S) \<and>
           length terms = card S"
proof -
  from assms(1,2) have "s = SCS (Geq lhs (py_sum (map (\<lambda>vk. Variable (descr vk)) (iter S))))"
    by (simp add: init_Inr)
  moreover from assms(3) have "set (iter S) = S" "distinct (iter S)"
    by (simp_all add: enumerates_def)
  moreover from this have "length (iter S) = card S"
    by (metis distinct_card)
  ultimately show ?thesis
    by (simp add: key_Variable comp_def)
qed

theorem C7_single_constraint_witness:
  "init ex_accepts ex_iter ex_lhs ''P'' [ex_M1, ex_M2] [ex_acc] =
     Inr (SCS (Geq ex_lhs (py_sum [Var (ex_key ''P'' [''M1'']), Var (ex_key ''P'' [''M2''])]))) \<and>
   summed_keys ''P'' [ex_M1, ex_M2] [ex_acc] = Inr {ex_key ''P'' [''M1''], ex_key ''P'' [''M2'']} \<and>
   enumerates ex_iter {ex_key ''P'' [''M1''], ex_key ''P'' [''M2'']} \<and>
   items (SCS (Geq ex_lhs (py_sum [Var (ex_key ''P'' [''M1'']), Var (ex_key ''P'' [''M2''])])))
     = [Geq ex_lhs (Add (Add (Num 0) (V (Var (ex_key ''P'' [''M1''])))) (V (Var (ex_key ''P'' [''M2'']))))] \<and>
   card {ex_key ''P'' [''M1''], ex_key ''P'' [''M2'']} = 2"
proof -
  let ?S = "{ex_key ''P'' [''M1''], ex_key ''P'' [''M2'']}"
  let ?s = "SCS (Geq ex_lhs (py_sum [Var (ex_key ''P'' [''M1'']), Var (ex_key ''P'' [''M2''])]))"
  note h1 = ex_init_12(1)
  have "summed_keys ''P'' [ex_M1, ex_M2] [ex_acc]
          = Inr (spec_summedvars ''P'' [ex_M1, ex_M2] [ex_acc])"
    by (rule summed_keys_ok) (simp add: ex_good)
  then have h2: "summed_keys ''P'' [ex_M1, ex_M2] [ex_acc] = Inr ?S"
    by (simp add: ex_spec_12)
  have h3: "enumerates ex_iter ?S"
    by (simp add: enumerates_def ex_iter_def)
  from C7_single_constraint [OF h1 h2 h3] obtain ts where
    "items ?s = [Geq ex_lhs (py_sum ts)]"
    "ts = map (\<lambda>vk. Variable (descr vk)) (ex_iter ?S)"
    "length ts = card ?S"
    by blast
  then have "items ?s = [Geq ex_lhs (Add (Add (Num 0) (V (Var (ex_key ''P'' [''M1'']))))
                                         (V (Var (ex_key ''P'' [''M2'']))))]"
    and "card ?S = 2"
    by (simp_all add: ex_iter_def py_sum_def Variable_def)
  with h1 h2 h3 show ?thesis by simp
qed

text \<open>
  Claim C8. The construction is deterministic: on the same \<open>lhs\<close>, \<open>varname\<close>, models
  and variables, two constructions sum the same set of keys, in whatever order each of
  them walks the set, and one raises an error exactly when the other raises it.
\<close>

theorem C8_deterministic:
  assumes "enumerates iter1 (spec_summedvars varname ms variables)"
    and "enumerates iter2 (spec_summedvars varname ms variables)"
  shows "(\<forall>a b. init accepts iter1 lhs varname ms variables = Inr a \<and>
                init accepts iter2 lhs varname ms variables = Inr b \<longrightarrow>
                summedvars a = summedvars b) \<and>
         (\<forall>e. init accepts iter1 lhs varname ms variables = Inl e \<longleftrightarrow>
              init accepts iter2 lhs varname ms variables = Inl e)"
proof (intro conjI allI impI)
  fix a b
  assume "init accepts iter1 lhs varname ms variables = Inr a \<and>
          init accepts iter2 lhs varname ms variables = Inr b"
  then have a: "init accepts iter1 lhs varname ms variables = Inr a"
    and b: "init accepts iter2 lhs varname ms variables = Inr b"
    by simp_all
  from init_summedvars [OF a assms(1)] init_summedvars [OF b assms(2)]
  show "summedvars a = summedvars b" by simp
next
  fix e
  let ?S = "spec_summedvars varname ms variables"
  from assms have s: "set (iter1 ?S) = ?S" "set (iter2 ?S) = ?S"
    by (simp_all add: enumerates_def)
  then have nil: "iter1 ?S = [] \<longleftrightarrow> iter2 ?S = []"
    by (metis set_empty)
  show "init accepts iter1 lhs varname ms variables = Inl e \<longleftrightarrow>
        init accepts iter2 lhs varname ms variables = Inl e"
  proof (cases "summed_keys varname ms variables")
    case (Inl x)
    then show ?thesis by (simp add: init_Inl)
  next
    case (Inr S)
    then have "S = ?S" by (simp add: summed_keys_Inr)
    with Inr s nil show ?thesis by (simp add: init_Inl)
  qed
qed

theorem C8_deterministic_witness:
  "enumerates ex_iter (spec_summedvars ''P'' [ex_M1, ex_M2] [ex_acc]) \<and>
   enumerates ex_iter_rev (spec_summedvars ''P'' [ex_M1, ex_M2] [ex_acc]) \<and>
   init ex_accepts ex_iter ex_lhs ''P'' [ex_M1, ex_M2] [ex_acc] =
     Inr (SCS (Geq ex_lhs (py_sum [Var (ex_key ''P'' [''M1'']), Var (ex_key ''P'' [''M2''])]))) \<and>
   init ex_accepts ex_iter_rev ex_lhs ''P'' [ex_M1, ex_M2] [ex_acc] =
     Inr (SCS (Geq ex_lhs (py_sum [Var (ex_key ''P'' [''M2'']), Var (ex_key ''P'' [''M1''])]))) \<and>
   summedvars (SCS (Geq ex_lhs (py_sum [Var (ex_key ''P'' [''M1'']), Var (ex_key ''P'' [''M2''])])))
     = summedvars (SCS (Geq ex_lhs (py_sum [Var (ex_key ''P'' [''M2'']), Var (ex_key ''P'' [''M1''])])))"
proof -
  note h1 = ex_enumerates_12(1) and h2 = ex_enumerates_12(2)
  note a = ex_init_12(1) and b = ex_init_12(2)
  from C8_deterministic [OF h1 h2, of ex_accepts ex_lhs] a b h1 h2 show ?thesis by simp
qed

text \<open>
  Claim C9, as stated, fails: with no sub-models and no explicit variables the
  constructor reaches line 20 with an empty set, the sum of no terms is the number 0,
  and the library refuses \<open>lhs >= 0\<close>; the construction raises and returns no set.
\<close>

theorem C9_no_models_no_variables_counterexample:
  "init ex_accepts (\<lambda>_. []) ex_lhs ''P'' [] [] = Inl LibraryError \<and>
   init ex_accepts (\<lambda>_. []) ex_lhs ''P'' [] [] \<noteq> Inr (SCS (Geq ex_lhs (Num 0)))"
  by (simp add: init_def ge_def summed_keys_def py_sum_def)

text \<open>
  Claim C9, amended. With no sub-models and no explicit variables, lines 5 to 19 run
  without error and compute the empty set of keys, the sum over it is the number 0,
  and the construction then fails at line 20 with the library's error, whatever else
  the library accepts; no constraint is stored.
\<close>

theorem C9_no_models_no_variables:
  assumes "enumerates iter {}"
  shows "summed_keys varname [] [] = Inr {} \<and>
         py_sum (map (\<lambda>vk. Variable (descr vk)) (iter {})) = Num 0 \<and>
         init accepts iter lhs varname [] [] = Inl LibraryError"
  using assms
  by (simp add: enumerates_def init_def ge_def summed_keys_def py_sum_def)

theorem C9_no_models_no_variables_witness:
  "enumerates (\<lambda>_. [] :: varkey list) {} \<and>
   summed_keys ''P'' [] [] = Inr {} \<and>
   init (\<lambda>_ _. True) (\<lambda>_. []) ex_lhs ''P'' [] [] = Inl LibraryError"
proof -
  have h: "enumerates (\<lambda>_. [] :: varkey list) {}" by (simp add: enumerates_def)
  from C9_no_models_no_variables [OF h, of "''P''" "\<lambda>_ _. True" ex_lhs] h
  show ?thesis by simp
qed

text \<open>
  Claim C10. The filter indexes the first entry of the chain of every variable it is
  given, so a construction that returns had no looked-up variable with an empty chain,
  and a sub-model whose lookup returns such a variable makes the construction fail.
  When the loop gets to that sub-model (every sub-model listed before it passes its
  filter and its assertion), the failure is the indexing error, raised before the
  sub-model's own assertion is evaluated, and it is not the assertion's error.
\<close>

theorem C10_empty_chain:
  "(\<forall>s. init accepts iter lhs varname ms variables = Inr s \<longrightarrow>
        (\<forall>m \<in> set ms. \<forall>v \<in> set (as_list (getitem m varname)). chain v \<noteq> [])) \<and>
   ((\<exists>m \<in> set ms. empty_chain varname m) \<longrightarrow>
        (\<exists>e. init accepts iter lhs varname ms variables = Inl e)) \<and>
   (\<forall>pre m post. ms = pre @ m # post \<and> empty_chain varname m \<and>
        (\<forall>m' \<in> set pre. \<not> empty_chain varname m' \<and> exposes_one varname m') \<longrightarrow>
        init accepts iter lhs varname ms variables = Inl IndexError) \<and>
   IndexError \<noteq> AssertionError"
proof (intro conjI allI impI)
  fix s assume "init accepts iter lhs varname ms variables = Inr s"
  then obtain S where "summed_keys varname ms variables = Inr S"
    by (auto simp: init_Inr)
  then have "\<forall>m \<in> set ms. \<not> empty_chain varname m"
    by (simp add: summed_keys_Inr)
  then show "\<forall>m \<in> set ms. \<forall>v \<in> set (as_list (getitem m varname)). chain v \<noteq> []"
    by (auto simp: empty_chain_def as_list_candidates)
next
  assume "\<exists>m \<in> set ms. empty_chain varname m"
  then show "\<exists>e. init accepts iter lhs varname ms variables = Inl e"
    by (auto intro: init_fails)
next
  fix pre m post
  assume h: "ms = pre @ m # post \<and> empty_chain varname m \<and>
        (\<forall>m' \<in> set pre. \<not> empty_chain varname m' \<and> exposes_one varname m')"
  then have "init accepts iter lhs varname (pre @ m # post) variables =
               Inl (if empty_chain varname m then IndexError else AssertionError)"
    by (intro init_prefix) simp_all
  with h show "init accepts iter lhs varname ms variables = Inl IndexError" by simp
next
  show "IndexError \<noteq> AssertionError" by simp
qed

theorem C10_empty_chain_witness:
  "empty_chain ''P'' ex_M3 \<and> \<not> empty_chain ''P'' ex_M1 \<and> exposes_one ''P'' ex_M1 \<and>
   init ex_accepts ex_iter ex_lhs ''P'' [ex_M1, ex_M3, ex_M4] [ex_acc] = Inl IndexError"
proof -
  have "[ex_M1, ex_M3, ex_M4] = [ex_M1] @ ex_M3 # [ex_M4] \<and> empty_chain ''P'' ex_M3 \<and>
        (\<forall>m' \<in> set [ex_M1]. \<not> empty_chain ''P'' m' \<and> exposes_one ''P'' m')"
    by (simp add: ex_M3_facts ex_good)
  with C10_empty_chain [of ex_accepts ex_iter ex_lhs "''P''" "[ex_M1, ex_M3, ex_M4]" "[ex_acc]"]
  have "init ex_accepts ex_iter ex_lhs ''P'' [ex_M1, ex_M3, ex_M4] [ex_acc] = Inl IndexError"
    by blast
  then show ?thesis by (simp add: ex_M3_facts ex_good)
qed

text \<open>
  The first failing sub-model decides the error: here \<open>ex_M4\<close>, which has no match, is
  listed before \<open>ex_M3\<close>, so the assertion fails before the lookup of \<open>ex_M3\<close> is made.
\<close>

lemma ex_first_failure_decides:
  "init ex_accepts ex_iter ex_lhs ''P'' [ex_M4, ex_M3] [] = Inl AssertionError"
  by (simp add: init_def summed_keys_def ex_M3_def ex_M4_def ex_model_def)

end
